theory Spec2Isabelle
  imports Complex_Main "HOL-Library.AList"
begin

section \<open>The resumable transfer engine of \<^verbatim>\<open>sequential_uploader.py\<close>\<close>

text \<open>
  The class \<^verbatim>\<open>RobustUploader\<close> is embedded as a record of its attributes together with
  the part of the outside world it reads and writes: the two persisted JSON files, the
  files of the working directories, and a trace of the calls made to the outside (sleeps,
  requests to the two remote services, runs of the encoding tool).  Every method takes
  the record and returns it updated.  What the outside answers (chunk results, tool
  output, the clock, the random generator) is an argument of the method.

  Conventions of the embedding:
  \<^item> Python strings are \<open>string\<close>; \<^verbatim>\<open>len\<close> is \<open>length\<close>.
  \<^item> A dictionary is an association list; \<open>AList.update\<close> keeps the position of a
    key that is present and appends a new key, as Python's insertion order does.
  \<^item> Floating point numbers are idealised as reals.
  \<^item> Writing one of the files of the engine always succeeds, so the handler of
    \<^verbatim>\<open>_save_resume_data\<close>, which only logs, has no branch here.
  \<^item> Calls of \<^verbatim>\<open>logger\<close> are left out.
\<close>

subsection \<open>Exceptions and results\<close>

datatype exn =
    KeyError
  | ValueError
  | IndexError
  | SocketTimeout
  | HttpError nat
  | OSError
  | ZeroDivisionError
  | SubprocessError
  | Exception

text \<open>
  A call returns a value, raises, or is still running when the answers of the outside
  that were supplied are used up (\<open>Pending\<close>).
\<close>

datatype 'a result = Ret 'a | Exc exn | Pending

subsection \<open>The catalogue\<close>

text \<open>
  A recipe of the catalogue.  \<open>recipe_id\<close> is \<^verbatim>\<open>str(recipe['id'])\<close>, and
  \<open>recipe_id_int\<close> is \<^verbatim>\<open>int(recipe.get('id', 0))\<close>, \<open>None\<close> where \<^verbatim>\<open>int\<close> raises.
  The fields that only feed the title and the description of the published video are
  left out.
\<close>

record recipe =
  recipe_id :: string
  recipe_id_int :: "int option"
  dish_name :: string
  dish_type :: string
  taste_category :: string
  ingredients :: "string list"
  public_url :: string

subsection \<open>The trace of calls to the outside\<close>

datatype cause =
    ChunkTimeout
  | DownloadTimeout
  | DownloadError
  | UploadTimeout
  | ServerError
  | UploadError

datatype event =
    Sleep cause nat
  | DriveGetMedia string
  | DriveNextChunk
  | FileWrite string nat
  | FileRemove string
  | FFmpegVersion
  | FFmpegProbe string
  | FFmpegEncode string int int int string
  | YouTubeInsert string "string list"
  | YouTubeNextChunk

subsection \<open>The uploader object and its files\<close>

type_synonym resume_record = "(string \<times> string) list"

record uploader =
  recipes :: "recipe list"
  used_recipes :: "string set"
  resume_data :: "(string \<times> resume_record) list"
  used_recipes_file :: "string set option"
  resume_data_file :: "(string \<times> resume_record) list option"
  files :: "string \<rightharpoonup> nat"
  trace :: "event list"

definition temp_dir :: string where
  "temp_dir = ''temp_videos''"

definition path_join :: "string \<Rightarrow> string \<Rightarrow> string" where
  "path_join d f = d @ ''/'' @ f"

definition original_path :: "string \<Rightarrow> string" where
  "original_path rid = path_join temp_dir (''original_'' @ rid @ ''.mp4'')"

definition compressed_path :: "string \<Rightarrow> string" where
  "compressed_path rid = path_join temp_dir (''compressed_'' @ rid @ ''.mp4'')"

definition emit :: "event \<Rightarrow> uploader \<Rightarrow> uploader" where
  "emit e st = st\<lparr>trace := trace st @ [e]\<rparr>"

definition save_resume_data :: "uploader \<Rightarrow> uploader" where
  "save_resume_data st = st\<lparr>resume_data_file := Some (resume_data st)\<rparr>"

definition MiB :: nat where
  "MiB = 1024 * 1024"

subsection \<open>Tags of the published video\<close>

definition is_space :: "char \<Rightarrow> bool" where
  "is_space c =
     (c \<in> set [CHR 0x09, CHR 0x0A, CHR 0x0B, CHR 0x0C, CHR 0x0D,
                 CHR 0x1C, CHR 0x1D, CHR 0x1E, CHR 0x1F, CHR 0x20])"

text \<open>\<^verbatim>\<open>s.split()\<close>: the maximal runs of characters that are not white space.\<close>

fun split_ws_acc :: "string \<Rightarrow> string \<Rightarrow> string list" where
  "split_ws_acc w [] = (if w = [] then [] else [w])"
| "split_ws_acc w (c # cs) =
     (if is_space c then (if w = [] then split_ws_acc [] cs else w # split_ws_acc [] cs)
      else split_ws_acc (w @ [c]) cs)"

definition split_ws :: "string \<Rightarrow> string list" where
  "split_ws s = split_ws_acc [] s"

text \<open>\<^verbatim>\<open>ingredient.split(',')[0].split()[-1]\<close>, with the \<^verbatim>\<open>IndexError\<close> of an empty list.\<close>

definition main_ingredient :: "string \<Rightarrow> exn + string" where
  "main_ingredient ingredient =
     (case split_ws (takeWhile (\<lambda>c. c \<noteq> CHR '','') ingredient) of
        [] \<Rightarrow> Inl IndexError
      | ws \<Rightarrow> Inr (last ws))"

fun add_ingredient_tags :: "string list \<Rightarrow> string list \<Rightarrow> string list" where
  "add_ingredient_tags tags [] = tags"
| "add_ingredient_tags tags (i # is) =
     (case main_ingredient i of
        Inl _ \<Rightarrow> add_ingredient_tags tags is
      | Inr m \<Rightarrow>
          if m \<noteq> [] \<and> m \<notin> set tags then add_ingredient_tags (tags @ [m]) is
          else add_ingredient_tags tags is)"

definition initial_tags :: "recipe \<Rightarrow> string list" where
  "initial_tags r =
     add_ingredient_tags
       [dish_name r, dish_type r, taste_category r,
        ''recipe'', ''cooking'', ''food'', ''homemade'', ''chef'', ''delicious'']
       (ingredients r)"

definition total_tags_length :: "string list \<Rightarrow> nat" where
  "total_tags_length tags = sum_list (map length tags)"

text \<open>
  \<^verbatim>\<open>while total_tags_length > 490 and len(tags) > 5: tags.pop()\<close>
\<close>

function trim_tags :: "string list \<Rightarrow> string list" where
  "trim_tags tags =
     (if total_tags_length tags > 490 \<and> length tags > 5 then trim_tags (butlast tags)
      else tags)"
  by pat_completeness auto
termination
  by (relation "measure length") auto

declare trim_tags.simps [simp del]

subsection \<open>The upload loop\<close>

text \<open>
  What one call of \<^verbatim>\<open>upload_request.next_chunk()\<close> does: it returns a pair of a status
  (here its progress in percent, \<^verbatim>\<open>int(status.progress() * 100)\<close>) and a response (here
  the identifier of the published video, \<^verbatim>\<open>response['id']\<close>), either of which can be
  \<^verbatim>\<open>None\<close>, or it raises.
\<close>

datatype ul_event =
    Chunk "nat option" "string option"
  | ChunkRaises exn

record ul_state =
  response :: "string option"
  retry_count :: nat
  last_progress :: nat
  stalled_count :: nat
  ul_trace :: "event list"

definition ul_init :: ul_state where
  "ul_init = \<lparr>response = None, retry_count = 0, last_progress = 0, stalled_count = 0,
              ul_trace = []\<rparr>"

definition upload_delay :: "nat \<Rightarrow> nat" where
  "upload_delay n = min (2 ^ n) 120"

text \<open>
  The three handlers that retry.  Each increments \<^verbatim>\<open>retry_count\<close>, sleeps, and raises
  again when the count has reached \<^verbatim>\<open>max_retries\<close>.
\<close>

definition retry_handler :: "cause \<Rightarrow> exn \<Rightarrow> nat \<Rightarrow> ul_state \<Rightarrow> exn option \<times> ul_state" where
  "retry_handler c e max_retries ls =
     (let n = retry_count ls + 1;
          ls' = ls\<lparr>retry_count := n,
                   ul_trace := ul_trace ls @ [Sleep c (upload_delay n)]\<rparr>
      in (if n \<ge> max_retries then Some e else None, ls'))"

definition server_errors :: "nat list" where
  "server_errors = [500, 502, 503, 504]"

text \<open>One pass through the body of the \<^verbatim>\<open>while\<close> loop.\<close>

fun upload_iter :: "nat \<Rightarrow> ul_event \<Rightarrow> ul_state \<Rightarrow> exn option \<times> ul_state" where
  "upload_iter max_retries (Chunk status resp) ls0 =
     (let ls = ls0\<lparr>response := resp, ul_trace := ul_trace ls0 @ [YouTubeNextChunk]\<rparr> in
      case status of
        None \<Rightarrow> (None, ls)
      | Some current_progress \<Rightarrow>
          if current_progress = last_progress ls then
            (let ls1 = ls\<lparr>stalled_count := stalled_count ls + 1\<rparr> in
             if stalled_count ls1 > 5
             then retry_handler UploadTimeout SocketTimeout max_retries ls1
             else (None, ls1))
          else (None, ls\<lparr>stalled_count := 0, last_progress := current_progress\<rparr>))"
| "upload_iter max_retries (ChunkRaises e) ls0 =
     (let ls = ls0\<lparr>ul_trace := ul_trace ls0 @ [YouTubeNextChunk]\<rparr> in
      case e of
        SocketTimeout \<Rightarrow> retry_handler UploadTimeout e max_retries ls
      | HttpError code \<Rightarrow>
          if code \<in> set server_errors then retry_handler ServerError e max_retries ls
          else (Some e, ls)
      | _ \<Rightarrow> retry_handler UploadError e max_retries ls)"

text \<open>
  \<^verbatim>\<open>while response is None and retry_count < max_retries\<close>, over the answers of the
  remote service.  The result is \<open>Ret ()\<close> when the condition of the loop fails.
\<close>

fun upload_loop :: "nat \<Rightarrow> ul_event list \<Rightarrow> ul_state \<Rightarrow> unit result \<times> ul_state" where
  "upload_loop max_retries [] ls =
     (if response ls = None \<and> retry_count ls < max_retries then (Pending, ls)
      else (Ret (), ls))"
| "upload_loop max_retries (e # es) ls =
     (if response ls = None \<and> retry_count ls < max_retries then
        (case upload_iter max_retries e ls of
           (Some x, ls') \<Rightarrow> (Exc x, ls')
         | (None, ls') \<Rightarrow> upload_loop max_retries es ls')
      else (Ret (), ls))"

definition youtube_url :: "string \<Rightarrow> string" where
  "youtube_url video_id = ''https://www.youtube.com/watch?v='' @ video_id"

definition set_uploading :: "string \<Rightarrow> resume_record \<Rightarrow> resume_record" where
  "set_uploading video_path d =
     AList.update ''video_path'' video_path (AList.update ''status'' ''uploading'' d)"

text \<open>
  \<^verbatim>\<open>upload_to_youtube(video_path, recipe, max_retries)\<close>.  The first three statements
  stand before the \<^verbatim>\<open>try\<close>: a missing resume record is a \<^verbatim>\<open>KeyError\<close>.
\<close>

definition mark_used :: "string \<Rightarrow> uploader \<Rightarrow> uploader" where
  "mark_used rid st =
     (let st1 = st\<lparr>used_recipes := insert rid (used_recipes st)\<rparr>;
          st2 = st1\<lparr>used_recipes_file := Some (used_recipes st1)\<rparr>
      in if rid \<in> fst ` set (resume_data st2)
         then save_resume_data (st2\<lparr>resume_data := AList.delete rid (resume_data st2)\<rparr>)
         else st2)"

definition upload_to_youtube ::
  "string \<Rightarrow> recipe \<Rightarrow> nat \<Rightarrow> ul_event list \<Rightarrow> uploader \<Rightarrow> string result \<times> uploader" where
  "upload_to_youtube video_path r max_retries script st =
     (let rid = recipe_id r in
      case map_of (resume_data st) rid of
        None \<Rightarrow> (Exc KeyError, st)
      | Some d \<Rightarrow>
          (let st1 = save_resume_data
                       (st\<lparr>resume_data :=
                             AList.update rid (set_uploading video_path d) (resume_data st)\<rparr>);
               tags = trim_tags (initial_tags r)
           in (case files st1 video_path of
                 None \<Rightarrow> (Exc OSError, st1)
               | Some file_size \<Rightarrow>
                   (let st2 = emit (YouTubeInsert video_path tags) st1;
                        run = upload_loop max_retries script ul_init;
                        st3 = st2\<lparr>trace := trace st2 @ ul_trace (snd run)\<rparr>
                    in (case fst run of
                          Exc e \<Rightarrow> (Exc e, st3)
                        | Pending \<Rightarrow> (Pending, st3)
                        | Ret u \<Rightarrow>
                            (case response (snd run) of
                               None \<Rightarrow> (Exc Exception, st3)
                             | Some video_id \<Rightarrow>
                                 (Ret (youtube_url video_id), mark_used rid st3)))))))"

subsection \<open>The download stage\<close>

text \<open>
  \<^verbatim>\<open>drive_url.split('/file/d/')[1].split('/')[0]\<close> when the separator occurs in the
  address: what follows its first occurrence, up to the next \<^verbatim>\<open>/\<close>.
\<close>

fun after_first :: "string \<Rightarrow> string \<Rightarrow> string option" where
  "after_first sep [] = (if sep = [] then Some [] else None)"
| "after_first sep (c # cs) =
     (if take (length sep) (c # cs) = sep then Some (drop (length sep) (c # cs))
      else after_first sep cs)"

definition extract_file_id :: "string \<Rightarrow> string option" where
  "extract_file_id drive_url =
     map_option (takeWhile (\<lambda>c. c \<noteq> CHR ''/'')) (after_first ''/file/d/'' drive_url)"

text \<open>
  What one call of \<^verbatim>\<open>downloader.next_chunk()\<close> does: it returns a progress and the flag
  \<^verbatim>\<open>done\<close>, or it raises.  An attempt is the body of the outer \<^verbatim>\<open>try\<close>: either one
  of its statements outside the chunk loop raises, or the chunks are requested and, once
  done, the bytes received (their number is given) are written to the file.
\<close>

datatype dl_chunk =
    Progress nat bool
  | NextChunkRaises exn

datatype dl_attempt =
    SetupRaises exn
  | Transfer "dl_chunk list" nat

definition chunk_delay :: "nat \<Rightarrow> nat" where
  "chunk_delay n = min (2 ^ n) 30"

definition download_delay :: "nat \<Rightarrow> nat" where
  "download_delay n = min (2 ^ n) 60"

text \<open>\<^verbatim>\<open>while not done\<close>, with the handler of a timed out chunk.\<close>

fun chunk_loop :: "nat \<Rightarrow> dl_chunk list \<Rightarrow> uploader \<Rightarrow> unit result \<times> uploader" where
  "chunk_loop retries [] st = (Pending, st)"
| "chunk_loop retries (Progress pct done # cs) st =
     (let st1 = emit DriveNextChunk st in
      if done then (Ret (), st1) else chunk_loop retries cs st1)"
| "chunk_loop retries (NextChunkRaises e # cs) st =
     (let st1 = emit DriveNextChunk st in
      if e = SocketTimeout
      then chunk_loop retries cs (emit (Sleep ChunkTimeout (chunk_delay retries)) st1)
      else (Exc e, st1))"

definition download_attempt ::
  "nat \<Rightarrow> string \<Rightarrow> string \<Rightarrow> dl_attempt \<Rightarrow> uploader \<Rightarrow> string result \<times> uploader" where
  "download_attempt retries file_id path a st =
     (case a of
        SetupRaises e \<Rightarrow> (Exc e, st)
      | Transfer cs n \<Rightarrow>
          (case chunk_loop retries cs (emit (DriveGetMedia file_id) st) of
             (Ret u, st1) \<Rightarrow>
               (Ret path, emit (FileWrite path n) (st1\<lparr>files := (files st1)(path \<mapsto> n)\<rparr>))
           | (Exc e, st1) \<Rightarrow> (Exc e, st1)
           | (Pending, st1) \<Rightarrow> (Pending, st1)))"

text \<open>
  \<^verbatim>\<open>while retries < max_retries\<close>, with the two handlers of a failed attempt and
  the \<^verbatim>\<open>raise\<close> after the loop.
\<close>

fun download_loop ::
  "nat \<Rightarrow> nat \<Rightarrow> string \<Rightarrow> string \<Rightarrow> dl_attempt list \<Rightarrow> uploader \<Rightarrow> string result \<times> uploader"
where
  "download_loop max_retries retries file_id path [] st =
     (if retries < max_retries then (Pending, st) else (Exc Exception, st))"
| "download_loop max_retries retries file_id path (a # as) st =
     (if retries < max_retries then
        (case download_attempt retries file_id path a st of
           (Exc e, st1) \<Rightarrow>
             (let n = retries + 1 in
              if e = SocketTimeout then
                (if n < max_retries
                 then download_loop max_retries n file_id path as
                        (emit (Sleep DownloadTimeout (download_delay n)) st1)
                 else (Exc e, st1))
              else
                (if n < max_retries
                 then download_loop max_retries n file_id path as
                        (emit (Sleep DownloadError 10) st1)
                 else (Exc e, st1)))
         | (Ret p, st1) \<Rightarrow> (Ret p, st1)
         | (Pending, st1) \<Rightarrow> (Pending, st1))
      else (Exc Exception, st))"

definition exists_larger :: "uploader \<Rightarrow> string \<Rightarrow> nat \<Rightarrow> bool" where
  "exists_larger st path n = (case files st path of None \<Rightarrow> False | Some file_size \<Rightarrow> file_size > n)"

definition download_video ::
  "recipe \<Rightarrow> nat \<Rightarrow> string \<Rightarrow> dl_attempt list \<Rightarrow> uploader \<Rightarrow> string result \<times> uploader" where
  "download_video r max_retries now script st =
     (let rid = recipe_id r;
          st1 = save_resume_data
                  (st\<lparr>resume_data :=
                        AList.update rid
                          [(''status'', ''downloading''), (''start_time'', now),
                           (''dish_name'', dish_name r)]
                          (resume_data st)\<rparr>);
          temp_video_path = original_path rid
      in if exists_larger st1 temp_video_path (1024 * 1024) then (Ret temp_video_path, st1)
         else (case extract_file_id (public_url r) of
                 None \<Rightarrow> (Exc ValueError, st1)
               | Some file_id \<Rightarrow>
                   if file_id = [] then (Exc ValueError, st1)
                   else download_loop max_retries 0 file_id temp_video_path script st1))"

subsection \<open>The compression stage\<close>

text \<open>
  What the encoding tool does: \<open>version_run\<close> is the exit code of \<^verbatim>\<open>ffmpeg -version\<close>
  (\<open>None\<close> when the program is not found), \<open>probe_stderr\<close> the diagnostic output of the
  analysis run, \<open>encode_returncode\<close> the exit code of the encoding run and
  \<open>encode_output\<close> the size of the output file it wrote (\<open>None\<close> when it wrote none).
\<close>

record ffmpeg =
  version_run :: "int option"
  probe_stderr :: string
  encode_returncode :: int
  encode_output :: "nat option"

definition is_digit :: "char \<Rightarrow> bool" where
  "is_digit c = (c \<in> set ''0123456789'')"

definition two_digits :: "char \<Rightarrow> char \<Rightarrow> nat" where
  "two_digits a b = 10 * (of_char a - 48) + (of_char b - 48)"

text \<open>
  \<^verbatim>\<open>re.search(r'Duration: (\d{2}):(\d{2}):(\d{2})', stderr)\<close>: the leftmost place
  where the pattern matches, with the three groups read by \<^verbatim>\<open>int\<close>.  The digits are
  the ASCII ones.
\<close>

definition match_duration :: "string \<Rightarrow> (nat \<times> nat \<times> nat) option" where
  "match_duration s =
     (if take 10 s = ''Duration: '' then
        (case drop 10 s of
           h1 # h2 # c1 # m1 # m2 # c2 # s1 # s2 # rest \<Rightarrow>
             if list_all is_digit [h1, h2, m1, m2, s1, s2] \<and> c1 = CHR '':'' \<and> c2 = CHR '':''
             then Some (two_digits h1 h2, two_digits m1 m2, two_digits s1 s2)
             else None
         | _ \<Rightarrow> None)
      else None)"

fun search_duration :: "string \<Rightarrow> (nat \<times> nat \<times> nat) option" where
  "search_duration [] = None"
| "search_duration (c # cs) =
     (case match_duration (c # cs) of
        Some g \<Rightarrow> Some g
      | None \<Rightarrow> search_duration cs)"

definition duration_seconds :: "string \<Rightarrow> nat" where
  "duration_seconds stderr =
     (case search_duration stderr of
        None \<Rightarrow> 120
      | Some (h, m, s) \<Rightarrow> h * 3600 + m * 60 + s)"

text \<open>
  \<^verbatim>\<open>int((target_size_mb * 8 * 1024 * 1024) / duration_seconds)\<close> with
  \<^verbatim>\<open>target_size_mb = max(5, input_size * 0.5)\<close>.  The quotient is not negative, so
  \<^verbatim>\<open>int\<close> is the floor.
\<close>

definition target_bitrate :: "real \<Rightarrow> nat \<Rightarrow> exn + int" where
  "target_bitrate input_size duration =
     (let target_size_mb = max 5 (input_size * 0.5) in
      if duration = 0 then Inl ZeroDivisionError
      else Inr \<lfloor>(target_size_mb * 8 * 1024 * 1024) / real duration\<rfloor>)"

definition megabytes :: "nat \<Rightarrow> real" where
  "megabytes n = real n / (1024 * 1024)"

text \<open>
  \<^verbatim>\<open>compress_video(input_path, recipe_id)\<close>.  The update of the resume record stands
  before the \<^verbatim>\<open>try\<close>; every exception raised inside it ends in
  \<^verbatim>\<open>return input_path\<close>.
\<close>

definition encode_video ::
  "string \<Rightarrow> string \<Rightarrow> real \<Rightarrow> int \<Rightarrow> ffmpeg \<Rightarrow> uploader \<Rightarrow> string result \<times> uploader" where
  "encode_video input_path output_path input_size bitrate ff st =
     (let st1 = emit (FFmpegEncode input_path bitrate \<lfloor>real_of_int bitrate * 1.5\<rfloor>
                        \<lfloor>real_of_int bitrate * 2\<rfloor> output_path) st;
          st2 = (case encode_output ff of
                   None \<Rightarrow> st1
                 | Some n \<Rightarrow> st1\<lparr>files := (files st1)(output_path \<mapsto> n)\<rparr>)
      in if encode_returncode ff \<noteq> 0 then (Ret input_path, st2)
         else (case files st2 output_path of
                 Some out_bytes \<Rightarrow>
                   if megabytes out_bytes > input_size * 0.9 then (Ret input_path, st2)
                   else (Ret output_path, st2)
               | None \<Rightarrow> (Ret input_path, st2)))"

definition compress_video ::
  "string \<Rightarrow> string \<Rightarrow> ffmpeg \<Rightarrow> uploader \<Rightarrow> string result \<times> uploader" where
  "compress_video input_path rid ff st =
     (let output_path = compressed_path rid in
      case map_of (resume_data st) rid of
        None \<Rightarrow> (Exc KeyError, st)
      | Some d \<Rightarrow>
          (let st1 = save_resume_data
                       (st\<lparr>resume_data :=
                             AList.update rid (AList.update ''status'' ''compressing'' d)
                               (resume_data st)\<rparr>)
           in if exists_larger st1 output_path (1024 * 1024) then (Ret output_path, st1)
              else
                (let st2 = emit FFmpegVersion st1 in
                 if version_run ff \<noteq> Some 0 then (Ret input_path, st2)
                 else
                   (case files st2 input_path of
                      None \<Rightarrow> (Ret input_path, st2)
                    | Some in_bytes \<Rightarrow>
                        (let input_size = megabytes in_bytes in
                         if input_size < 10 then (Ret input_path, st2)
                         else
                           (let st3 = emit (FFmpegProbe input_path) st2 in
                            case target_bitrate input_size
                                   (duration_seconds (probe_stderr ff)) of
                              Inl e \<Rightarrow> (Ret input_path, st3)
                            | Inr bitrate \<Rightarrow>
                                encode_video input_path output_path input_size bitrate
                                  ff st3))))))"

subsection \<open>Cleaning up\<close>

definition remove_if_exists :: "string \<Rightarrow> uploader \<Rightarrow> uploader" where
  "remove_if_exists path st =
     (if files st path \<noteq> None
      then emit (FileRemove path) (st\<lparr>files := (files st)(path := None)\<rparr>)
      else st)"

definition cleanup :: "string \<Rightarrow> uploader \<Rightarrow> uploader" where
  "cleanup rid st =
     remove_if_exists (compressed_path rid) (remove_if_exists (original_path rid) st)"

subsection \<open>Selecting a recipe\<close>

definition get_recipe_by_id :: "string \<Rightarrow> uploader \<Rightarrow> recipe option" where
  "get_recipe_by_id rid st = find (\<lambda>r. recipe_id r = rid) (recipes st)"

definition in_progress :: "resume_record \<Rightarrow> bool" where
  "in_progress d =
     (map_of d ''status'' = Some ''downloading'' \<or> map_of d ''status'' = Some ''compressing''
      \<or> map_of d ''status'' = Some ''uploading'')"

text \<open>
  \<^verbatim>\<open>get_next_recipe()\<close>.  \<open>pick\<close> is what the random generator decides:
  \<open>Some i\<close> when \<^verbatim>\<open>random.random() < 0.2\<close>, with \<open>i\<close> the position drawn by
  \<^verbatim>\<open>random.choice\<close> among the first ten (taken modulo ten).  Sorting by
  \<^verbatim>\<open>int(r.get('id', 0))\<close> raises when one identifier is no number.
\<close>

definition get_next_recipe :: "nat option \<Rightarrow> uploader \<Rightarrow> exn + recipe option" where
  "get_next_recipe pick st =
     (let available_recipes = filter (\<lambda>r. recipe_id r \<notin> used_recipes st) (recipes st) in
      if available_recipes = [] then Inr None
      else
        (let resume_recipe_id =
               map_option fst (find (\<lambda>(k, d). in_progress d) (resume_data st));
             resumed =
               (case resume_recipe_id of
                  None \<Rightarrow> None
                | Some k \<Rightarrow>
                    if k \<noteq> [] then find (\<lambda>r. recipe_id r = k) available_recipes else None)
         in case resumed of
              Some r \<Rightarrow> Inr (Some r)
            | None \<Rightarrow>
                if list_ex (\<lambda>r. recipe_id_int r = None) available_recipes then Inl ValueError
                else
                  (let sorted_recipes = sort_key (\<lambda>r. the (recipe_id_int r)) available_recipes;
                       next_recipe = hd sorted_recipes
                   in if length sorted_recipes > 10 then
                        (case pick of
                           Some i \<Rightarrow> Inr (Some (take 10 sorted_recipes ! (i mod 10)))
                         | None \<Rightarrow> Inr (Some next_recipe))
                      else Inr (Some next_recipe))))"

subsection \<open>Processing one recipe\<close>

text \<open>
  What the outside answers during one call of \<^verbatim>\<open>process_single_recipe\<close>:
  \<open>catalog\<close> is what \<^verbatim>\<open>load_recipes\<close> reads (\<open>None\<close> when it raises).
\<close>

record world =
  catalog :: "recipe list option"
  random_pick :: "nat option"
  now :: string
  drive :: "dl_attempt list"
  tool :: ffmpeg
  youtube :: "ul_event list"

text \<open>
  The first part of \<^verbatim>\<open>process_single_recipe(recipe_id)\<close>, up to the recipe to
  process.  The argument is \<^verbatim>\<open>None\<close> or a string, and \<^verbatim>\<open>if recipe_id:\<close> holds for a
  string that is not empty.
\<close>

definition select_recipe ::
  "string option \<Rightarrow> world \<Rightarrow> uploader \<Rightarrow> (exn + recipe option) \<times> uploader" where
  "select_recipe requested w st =
     (case (if recipes st = []
            then map_option (\<lambda>rs. st\<lparr>recipes := rs\<rparr>) (catalog w)
            else Some st) of
        None \<Rightarrow> (Inl Exception, st)
      | Some st1 \<Rightarrow>
          (case requested of
             Some rid \<Rightarrow>
               if rid \<noteq> [] then
                 (case get_recipe_by_id rid st1 of
                    None \<Rightarrow> (Inr None, st1)
                  | Some r \<Rightarrow>
                      if recipe_id r \<in> used_recipes st1 then (Inr None, st1)
                      else (Inr (Some r), st1))
               else (get_next_recipe (random_pick w) st1, st1)
           | None \<Rightarrow> (get_next_recipe (random_pick w) st1, st1)))"

text \<open>The check for partial progress: the path of a file to upload again, if any.\<close>

definition resume_video_path :: "string \<Rightarrow> uploader \<Rightarrow> string option" where
  "resume_video_path rid st =
     (case map_of (resume_data st) rid of
        None \<Rightarrow> None
      | Some d \<Rightarrow>
          if map_of d ''status'' = Some ''uploading'' then
            (case map_of d ''video_path'' of
               None \<Rightarrow> None
             | Some video_path \<Rightarrow>
                 if video_path \<noteq> [] \<and> files st video_path \<noteq> None then Some video_path
                 else None)
          else None)"

text \<open>Download and compression, when no file to upload again was found.\<close>

definition fetch_video :: "recipe \<Rightarrow> world \<Rightarrow> uploader \<Rightarrow> string result \<times> uploader" where
  "fetch_video r w st =
     (case download_video r 5 (now w) (drive w) st of
        (Ret original_video_path, st1) \<Rightarrow>
          compress_video original_video_path (recipe_id r) (tool w) st1
      | (Exc e, st1) \<Rightarrow> (Exc e, st1)
      | (Pending, st1) \<Rightarrow> (Pending, st1))"

definition upload_and_cleanup ::
  "string \<Rightarrow> recipe \<Rightarrow> world \<Rightarrow> uploader \<Rightarrow> string result \<times> uploader" where
  "upload_and_cleanup temp_video_path r w st =
     (case upload_to_youtube temp_video_path r 15 (youtube w) st of
        (Ret url, st1) \<Rightarrow> (Ret url, if url \<noteq> [] then cleanup (recipe_id r) st1 else st1)
      | (Exc e, st1) \<Rightarrow> (Exc e, st1)
      | (Pending, st1) \<Rightarrow> (Pending, st1))"

definition process_recipe :: "recipe \<Rightarrow> world \<Rightarrow> uploader \<Rightarrow> string result \<times> uploader" where
  "process_recipe r w st =
     (case resume_video_path (recipe_id r) st of
        Some video_path \<Rightarrow> upload_and_cleanup video_path r w st
      | None \<Rightarrow>
          (case fetch_video r w st of
             (Ret temp_video_path, st1) \<Rightarrow> upload_and_cleanup temp_video_path r w st1
           | (Exc e, st1) \<Rightarrow> (Exc e, st1)
           | (Pending, st1) \<Rightarrow> (Pending, st1)))"

text \<open>
  \<^verbatim>\<open>process_single_recipe(recipe_id)\<close>: every exception ends in \<^verbatim>\<open>return None\<close>.
\<close>

definition process_single_recipe ::
  "string option \<Rightarrow> world \<Rightarrow> uploader \<Rightarrow> string option result \<times> uploader" where
  "process_single_recipe requested w st =
     (case select_recipe requested w st of
        (Inl e, st1) \<Rightarrow> (Ret None, st1)
      | (Inr None, st1) \<Rightarrow> (Ret None, st1)
      | (Inr (Some r), st1) \<Rightarrow>
          (case process_recipe r w st1 of
             (Ret url, st2) \<Rightarrow> (Ret (Some url), st2)
           | (Exc e, st2) \<Rightarrow> (Ret None, st2)
           | (Pending, st2) \<Rightarrow> (Pending, st2)))"

subsection \<open>Reading delays off a trace\<close>

fun sleep_events :: "event list \<Rightarrow> (cause \<times> nat) list" where
  "sleep_events [] = []"
| "sleep_events (Sleep c d # es) = (c, d) # sleep_events es"
| "sleep_events (e # es) = sleep_events es"

text \<open>The delays slept by one handler, in the order of the trace.\<close>

definition delays :: "cause \<Rightarrow> event list \<Rightarrow> nat list" where
  "delays c es = map snd (filter (\<lambda>x. fst x = c) (sleep_events es))"

subsection \<open>Inputs for the examples\<close>

definition recipe7 :: recipe where
  "recipe7 =
     \<lparr>recipe_id = ''7'', recipe_id_int = Some 7, dish_name = ''Lemon Tart'',
      dish_type = ''dessert'', taste_category = ''sweet'',
      ingredients = [''2 cups flour, sifted'', ''1 egg'', ''3 lemons''],
      public_url = ''https://drive.google.com/file/d/abc123/view''\<rparr>"

definition long_name_recipe :: recipe where
  "long_name_recipe = recipe7\<lparr>dish_name := replicate 491 (CHR ''x'')\<rparr>"

definition uploading_record :: "string \<Rightarrow> resume_record" where
  "uploading_record video_path =
     [(''status'', ''uploading''), (''start_time'', ''2025-01-01T00:00:00''),
      (''dish_name'', ''Lemon Tart''), (''video_path'', video_path)]"

definition fresh_uploader :: uploader where
  "fresh_uploader =
     \<lparr>recipes = [recipe7], used_recipes = {}, resume_data = [],
      used_recipes_file = None, resume_data_file = None, files = Map.empty, trace = []\<rparr>"

text \<open>
  An uploader that was stopped while uploading recipe 7: the resume record names the
  original file of 20 MiB, which is on disk.
\<close>

definition stopped_uploader :: uploader where
  "stopped_uploader =
     fresh_uploader
       \<lparr>resume_data := [(''7'', uploading_record (original_path ''7''))],
        files := [original_path ''7'' \<mapsto> 20971520]\<rparr>"

definition good_tool :: ffmpeg where
  "good_tool =
     \<lparr>version_run = Some 0, probe_stderr = ''  Duration: 00:02:40.00, start: 0.000000'',
      encode_returncode = 0, encode_output = Some 5242880\<rparr>"

definition quiet_world :: world where
  "quiet_world =
     \<lparr>catalog = Some [recipe7], random_pick = None, now = ''2025-01-02T00:00:00'',
      drive = [Transfer [Progress 50 False, Progress 100 True] 20971520],
      tool = good_tool,
      youtube = [Chunk (Some 50) None, Chunk None (Some ''dQw4'')]\<rparr>"

section \<open>Properties\<close>

subsection \<open>Association lists\<close>

lemma map_of_update_same: "map_of (AList.update k v al) k = Some v"
  by (simp add: update_conv')

lemma map_of_delete_same: "map_of (AList.delete k al) k = None"
  by (simp add: delete_conv')

lemma update_in_keys: "k \<in> fst ` set (AList.update k v al)"
  by (metis domI dom_map_of_conv_image_fst map_of_update_same)

subsection \<open>The upload loop\<close>

lemma upload_loop_pending:
  "upload_loop m pre ls = (Pending, ls') \<Longrightarrow> response ls' = None \<and> retry_count ls' < m"
proof (induction pre arbitrary: ls)
  case Nil
  then show ?case by (auto split: if_splits)
next
  case (Cons e es)
  then show ?case by (auto split: if_splits prod.splits option.splits)
qed

lemma upload_loop_append:
  "upload_loop m pre ls = (Pending, ls') \<Longrightarrow> upload_loop m (pre @ xs) ls = upload_loop m xs ls'"
proof (induction pre arbitrary: ls)
  case Nil
  then show ?case by (cases xs) (auto split: if_splits)
next
  case (Cons e es)
  then show ?case by (auto split: if_splits prod.splits option.splits)
qed

lemma upload_iter_client_error:
  "code \<notin> set server_errors \<Longrightarrow>
   upload_iter m (ChunkRaises (HttpError code)) ls =
     (Some (HttpError code), ls\<lparr>ul_trace := ul_trace ls @ [YouTubeNextChunk]\<rparr>)"
  by (simp add: Let_def)

lemma upload_loop_client_error:
  assumes "upload_loop m pre ls0 = (Pending, ls)" and "code \<notin> set server_errors"
  shows "upload_loop m (pre @ ChunkRaises (HttpError code) # rest) ls0 =
           (Exc (HttpError code), ls\<lparr>ul_trace := ul_trace ls @ [YouTubeNextChunk]\<rparr>)"
proof -
  have c: "response ls = None \<and> retry_count ls < m" using assms(1) by (rule upload_loop_pending)
  have "upload_loop m (pre @ ChunkRaises (HttpError code) # rest) ls0 =
        upload_loop m (ChunkRaises (HttpError code) # rest) ls"
    using assms(1) by (rule upload_loop_append)
  also have "\<dots> = (Exc (HttpError code), ls\<lparr>ul_trace := ul_trace ls @ [YouTubeNextChunk]\<rparr>)"
    using c upload_iter_client_error[OF assms(2)] by simp
  finally show ?thesis .
qed

lemma upload_loop_response:
  "response (snd (upload_loop m script ls)) = Some v \<Longrightarrow>
   response ls = Some v \<or> (\<exists>s. Chunk s (Some v) \<in> set script)"
proof (induction script arbitrary: ls)
  case Nil
  then show ?case by (auto split: if_splits)
next
  case (Cons e es)
  show ?case
  proof (cases "response ls = None \<and> retry_count ls < m")
    case False
    then show ?thesis using Cons.prems by auto
  next
    case True
    obtain x ls' where it: "upload_iter m e ls = (x, ls')" by (cases "upload_iter m e ls")
    have r: "response ls' = Some v \<Longrightarrow> \<exists>s. e = Chunk s (Some v)"
      using it True
      by (cases e) (auto simp: Let_def retry_handler_def split: option.splits if_splits exn.splits)
    show ?thesis
    proof (cases x)
      case (Some a)
      then have "response ls' = Some v" using Cons.prems True it by simp
      then show ?thesis using r by auto
    next
      case None
      then have "response (snd (upload_loop m es ls')) = Some v" using Cons.prems True it by simp
      then have "response ls' = Some v \<or> (\<exists>s. Chunk s (Some v) \<in> set es)" by (rule Cons.IH)
      then show ?thesis using r by auto
    qed
  qed
qed

lemma upload_iter_same:
  "upload_iter m (Chunk (Some (last_progress ls)) resp) ls =
     (if 5 \<le> stalled_count ls
      then retry_handler UploadTimeout SocketTimeout m
             (ls\<lparr>response := resp, ul_trace := ul_trace ls @ [YouTubeNextChunk],
                 stalled_count := stalled_count ls + 1\<rparr>)
      else (None, ls\<lparr>response := resp, ul_trace := ul_trace ls @ [YouTubeNextChunk],
                      stalled_count := stalled_count ls + 1\<rparr>))"
  by (auto simp: Let_def)

lemma upload_iter_changed:
  "p \<noteq> last_progress ls \<Longrightarrow>
   upload_iter m (Chunk (Some p) resp) ls =
     (None, ls\<lparr>response := resp, ul_trace := ul_trace ls @ [YouTubeNextChunk],
               stalled_count := 0, last_progress := p\<rparr>)"
  by (simp add: Let_def)

lemma stall_steps:
  assumes "response ls = None" "retry_count ls < m" "stalled_count ls + k \<le> 5"
  shows "upload_loop m (replicate k (Chunk (Some (last_progress ls)) None) @ rest) ls =
         upload_loop m rest
           (ls\<lparr>stalled_count := stalled_count ls + k,
               ul_trace := ul_trace ls @ replicate k YouTubeNextChunk\<rparr>)"
  using assms
proof (induction k arbitrary: ls)
  case 0
  then show ?case by simp
next
  case (Suc k)
  let ?ls1 = "ls\<lparr>ul_trace := ul_trace ls @ [YouTubeNextChunk],
                 stalled_count := stalled_count ls + 1\<rparr>"
  have rn: "ls\<lparr>response := None\<rparr> = ls" using Suc.prems(1) by (cases ls) simp
  have it: "upload_iter m (Chunk (Some (last_progress ls)) None) ls = (None, ?ls1)"
    using Suc.prems by (simp add: upload_iter_same rn)
  have "upload_loop m (replicate (Suc k) (Chunk (Some (last_progress ls)) None) @ rest) ls =
        upload_loop m (replicate k (Chunk (Some (last_progress ?ls1)) None) @ rest) ?ls1"
    using Suc.prems by (simp del: upload_iter.simps add: it)
  also have "\<dots> = upload_loop m rest
           (?ls1\<lparr>stalled_count := stalled_count ?ls1 + k,
               ul_trace := ul_trace ?ls1 @ replicate k YouTubeNextChunk\<rparr>)"
    using Suc.prems by (intro Suc.IH) simp_all
  also have "\<dots> = upload_loop m rest
           (ls\<lparr>stalled_count := stalled_count ls + Suc k,
               ul_trace := ul_trace ls @ replicate (Suc k) YouTubeNextChunk\<rparr>)"
    by simp
  finally show ?case .
qed

lemma stall_sixth:
  assumes "response ls = None" "retry_count ls < m" "stalled_count ls = 0"
  shows "upload_loop m (replicate 6 (Chunk (Some (last_progress ls)) None) @ rest) ls =
         (if m \<le> retry_count ls + 1
          then (Exc SocketTimeout,
                ls\<lparr>stalled_count := 6, retry_count := retry_count ls + 1,
                    ul_trace := ul_trace ls @ replicate 6 YouTubeNextChunk
                                @ [Sleep UploadTimeout (upload_delay (retry_count ls + 1))]\<rparr>)
          else upload_loop m rest
                (ls\<lparr>stalled_count := 6, retry_count := retry_count ls + 1,
                    ul_trace := ul_trace ls @ replicate 6 YouTubeNextChunk
                                @ [Sleep UploadTimeout (upload_delay (retry_count ls + 1))]\<rparr>))"
proof -
  let ?c = "Chunk (Some (last_progress ls)) None"
  let ?ls5 = "ls\<lparr>stalled_count := stalled_count ls + 5,
               ul_trace := ul_trace ls @ replicate 5 YouTubeNextChunk\<rparr>"
  have r: "replicate 6 ?c @ rest = replicate 5 ?c @ (?c # rest)"
    by (simp add: numeral_eq_Suc)
  have five: "upload_loop m (replicate 6 ?c @ rest) ls = upload_loop m (?c # rest) ?ls5"
    unfolding r using assms by (intro stall_steps) simp_all
  show ?thesis
    unfolding five using assms
    by (cases ls) (simp add: numeral_eq_Suc Let_def retry_handler_def)
qed

subsection \<open>Trimming the tags\<close>

lemma trim_tags_more:
  "total_tags_length tags > 490 \<Longrightarrow> length tags > 5 \<Longrightarrow> trim_tags tags = trim_tags (butlast tags)"
  by (subst trim_tags.simps) simp

lemma trim_tags_stop:
  "\<not> (total_tags_length tags > 490 \<and> length tags > 5) \<Longrightarrow> trim_tags tags = tags"
  by (subst trim_tags.simps) auto

lemma trim_prefix: "\<exists>k. trim_tags tags = take k tags"
proof (induction tags rule: trim_tags.induct)
  case (1 tags)
  show ?case
  proof (cases "total_tags_length tags > 490 \<and> length tags > 5")
    case True
    then obtain k where "trim_tags (butlast tags) = take k (butlast tags)" using 1 by blast
    then have "trim_tags tags = take (min k (length tags - 1)) tags"
      using True by (simp add: trim_tags_more butlast_conv_take)
    then show ?thesis by blast
  next
    case False
    then have "trim_tags tags = take (length tags) tags" by (simp add: trim_tags_stop)
    then show ?thesis by blast
  qed
qed

lemma trim_len: "length tags \<ge> 5 \<Longrightarrow> length (trim_tags tags) \<ge> 5"
proof (induction tags rule: trim_tags.induct)
  case (1 tags)
  show ?case
  proof (cases "total_tags_length tags > 490 \<and> length tags > 5")
    case True
    then have "length (butlast tags) \<ge> 5" by (simp; arith)
    then have "length (trim_tags (butlast tags)) \<ge> 5" using 1 True by blast
    then show ?thesis using True by (simp add: trim_tags_more)
  next
    case False
    then show ?thesis using 1 by (simp add: trim_tags_stop)
  qed
qed

lemma trim_bound: "total_tags_length (trim_tags tags) \<le> 490 \<or> length (trim_tags tags) \<le> 5"
proof (induction tags rule: trim_tags.induct)
  case (1 tags)
  show ?case
  proof (cases "total_tags_length tags > 490 \<and> length tags > 5")
    case True
    then show ?thesis using 1 by (simp add: trim_tags_more)
  next
    case False
    then show ?thesis by (auto simp add: trim_tags_stop)
  qed
qed

lemma total_take_mono: "j \<le> k \<Longrightarrow> total_tags_length (take j tags) \<le> total_tags_length (take k tags)"
proof -
  assume "j \<le> k"
  then have "take k tags = take j tags @ take (k - j) (drop j tags)"
    by (metis le_add_diff_inverse take_add)
  then show ?thesis by (simp add: total_tags_length_def)
qed

subsection \<open>The claims about the upload stage\<close>

text \<open>
  C1.  After \<^verbatim>\<open>upload_to_youtube\<close> returns an address, a call of \<^verbatim>\<open>next_chunk\<close> had
  answered with a response, the identifier is in the ledger, the ledger file holds the
  ledger, the resume record of the identifier is gone and the resume file holds the
  resume data.  After every other end of the call (an exception, or no end yet) the
  ledger and its file are as they were.
\<close>

theorem C1_ledger_after_confirmed_upload:
  assumes "upload_to_youtube video_path r max_retries script st = (res, st')"
  shows "(\<forall>url. res = Ret url \<longrightarrow>
            (\<exists>s video_id. Chunk s (Some video_id) \<in> set script \<and> url = youtube_url video_id) \<and>
            used_recipes st' = insert (recipe_id r) (used_recipes st) \<and>
            used_recipes_file st' = Some (used_recipes st') \<and>
            map_of (resume_data st') (recipe_id r) = None \<and>
            resume_data_file st' = Some (resume_data st')) \<and>
         ((\<forall>url. res \<noteq> Ret url) \<longrightarrow>
            used_recipes st' = used_recipes st \<and> used_recipes_file st' = used_recipes_file st)"
proof -
  have resp: "\<And>v. response (snd (upload_loop max_retries script ul_init)) = Some v \<Longrightarrow>
           \<exists>s. Chunk s (Some v) \<in> set script"
    using upload_loop_response[of max_retries script ul_init] by (auto simp: ul_init_def)
  show ?thesis
    using assms resp
    by (auto simp: upload_to_youtube_def Let_def save_resume_data_def emit_def mark_used_def
          map_of_delete_same update_in_keys
        split: option.splits result.splits)
qed

theorem C1_witness:
  "fst (upload_to_youtube (original_path ''7'') recipe7 15 (youtube quiet_world)
          stopped_uploader) = Ret (youtube_url ''dQw4'') \<and>
   used_recipes (snd (upload_to_youtube (original_path ''7'') recipe7 15 (youtube quiet_world)
          stopped_uploader)) = {''7''} \<and>
   used_recipes_file (snd (upload_to_youtube (original_path ''7'') recipe7 15
          (youtube quiet_world) stopped_uploader)) = Some {''7''} \<and>
   map_of (resume_data (snd (upload_to_youtube (original_path ''7'') recipe7 15
          (youtube quiet_world) stopped_uploader))) ''7'' = None"
proof -
  let ?run = "upload_to_youtube (original_path ''7'') recipe7 15 (youtube quiet_world)
                stopped_uploader"
  have e: "?run = (fst ?run, snd ?run)" by simp
  have l: "upload_loop 15 (youtube quiet_world) ul_init =
             (Ret (), \<lparr>response = Some ''dQw4'', retry_count = 0, last_progress = 50,
                       stalled_count = 0, ul_trace = [YouTubeNextChunk, YouTubeNextChunk]\<rparr>)"
    by (simp add: quiet_world_def ul_init_def Let_def)
  have r: "fst ?run = Ret (youtube_url ''dQw4'')"
    by (simp add: upload_to_youtube_def stopped_uploader_def fresh_uploader_def recipe7_def l
          Let_def save_resume_data_def emit_def)
  have i: "recipe_id recipe7 = ''7''" "used_recipes stopped_uploader = {}"
    by (simp_all add: recipe7_def stopped_uploader_def fresh_uploader_def)
  show ?thesis
    using C1_ledger_after_confirmed_upload[OF e] r i by simp
qed

text \<open>
  C2.  While the upload loop is still running, a call of \<^verbatim>\<open>next_chunk\<close> that raises an
  HTTP error whose status is none of 500, 502, 503, 504 ends \<^verbatim>\<open>upload_to_youtube\<close>
  with that error: the state of the loop is the one before the call (the retry counter
  is not incremented), nothing follows the call in the trace (no sleep, no other call),
  the ledger and its file are as they were, and the resume record of the identifier
  has the status \<^verbatim>\<open>uploading\<close> and the path of the video.
\<close>

theorem C2_client_error_raises_immediately:
  assumes "map_of (resume_data st) (recipe_id r) = Some d"
    and "files st video_path = Some file_size"
    and "upload_loop max_retries pre ul_init = (Pending, ls)"
    and "code \<notin> set server_errors"
  shows "\<exists>st'.
     upload_to_youtube video_path r max_retries (pre @ ChunkRaises (HttpError code) # rest) st
       = (Exc (HttpError code), st') \<and>
     upload_loop max_retries (pre @ ChunkRaises (HttpError code) # rest) ul_init
       = (Exc (HttpError code), ls\<lparr>ul_trace := ul_trace ls @ [YouTubeNextChunk]\<rparr>) \<and>
     trace st' = trace st @ [YouTubeInsert video_path (trim_tags (initial_tags r))]
                   @ ul_trace ls @ [YouTubeNextChunk] \<and>
     used_recipes st' = used_recipes st \<and>
     used_recipes_file st' = used_recipes_file st \<and>
     (\<exists>d'. map_of (resume_data st') (recipe_id r) = Some d' \<and>
           map_of d' ''status'' = Some ''uploading'' \<and>
           map_of d' ''video_path'' = Some video_path) \<and>
     resume_data_file st' = Some (resume_data st')"
proof -
  note run = upload_loop_client_error[OF assms(3) assms(4), of rest]
  show ?thesis
    using assms(1,2) run
    by (simp add: upload_to_youtube_def Let_def save_resume_data_def emit_def
          map_of_update_same set_uploading_def update_conv')
qed

theorem C2_witness:
  "fst (upload_to_youtube (original_path ''7'') recipe7 15
          ([Chunk (Some 50) None] @ ChunkRaises (HttpError 403) # [Chunk None (Some ''dQw4'')])
          stopped_uploader) = Exc (HttpError 403) \<and>
   retry_count (snd (upload_loop 15
          ([Chunk (Some 50) None] @ ChunkRaises (HttpError 403) # [Chunk None (Some ''dQw4'')])
          ul_init)) = 0 \<and>
   used_recipes (snd (upload_to_youtube (original_path ''7'') recipe7 15
          ([Chunk (Some 50) None] @ ChunkRaises (HttpError 403) # [Chunk None (Some ''dQw4'')])
          stopped_uploader)) = {}"
proof -
  have h1: "map_of (resume_data stopped_uploader) (recipe_id recipe7)
              = Some (uploading_record (original_path ''7''))"
    by (simp add: stopped_uploader_def fresh_uploader_def recipe7_def)
  have h2: "files stopped_uploader (original_path ''7'') = Some 20971520"
    by (simp add: stopped_uploader_def fresh_uploader_def)
  have h3: "upload_loop 15 [Chunk (Some 50) None] ul_init =
              (Pending, \<lparr>response = None, retry_count = 0, last_progress = 50,
                         stalled_count = 0, ul_trace = [YouTubeNextChunk]\<rparr>)"
    by (simp add: ul_init_def Let_def)
  have h4: "403 \<notin> set server_errors" by (simp add: server_errors_def)
  have u: "used_recipes stopped_uploader = {}"
    by (simp add: stopped_uploader_def fresh_uploader_def)
  from C2_client_error_raises_immediately[OF h1 h2 h3 h4, of "[Chunk None (Some ''dQw4'')]"]
  obtain st' where
    a: "upload_to_youtube (original_path ''7'') recipe7 15
          ([Chunk (Some 50) None] @ ChunkRaises (HttpError 403) # [Chunk None (Some ''dQw4'')])
          stopped_uploader = (Exc (HttpError 403), st')"
    and b: "upload_loop 15
          ([Chunk (Some 50) None] @ ChunkRaises (HttpError 403) # [Chunk None (Some ''dQw4'')])
          ul_init =
          (Exc (HttpError 403),
           \<lparr>response = None, retry_count = 0, last_progress = 50,
              stalled_count = 0, ul_trace = [YouTubeNextChunk]\<rparr>
           \<lparr>ul_trace := ul_trace \<lparr>response = None, retry_count = 0, last_progress = 50,
              stalled_count = 0, ul_trace = [YouTubeNextChunk]\<rparr> @ [YouTubeNextChunk]\<rparr>)"
    and c: "used_recipes st' = used_recipes stopped_uploader"
    by blast
  show ?thesis unfolding a b by (simp add: c u)
qed

text \<open>
  C4.  The trimming loop removes tags from the tail only: its result is a prefix of the
  list it starts from.  It keeps five tags when it starts from five or more, and the
  list built by \<^verbatim>\<open>upload_to_youtube\<close> always starts with nine.  It ends with a total
  length of at most 490 or with no more than five tags, so the result is within 490
  whenever the first five tags are.
\<close>

theorem C4_trim_tags:
  "(\<exists>k. trim_tags tags = take k tags) \<and>
   (5 \<le> length tags \<longrightarrow> 5 \<le> length (trim_tags tags)) \<and>
   5 \<le> length (trim_tags (initial_tags r)) \<and>
   (total_tags_length (trim_tags tags) \<le> 490 \<or> length (trim_tags tags) \<le> 5) \<and>
   (total_tags_length (take 5 tags) \<le> 490 \<longrightarrow> total_tags_length (trim_tags tags) \<le> 490)"
proof -
  obtain k where k: "trim_tags tags = take k tags" using trim_prefix by blast
  have len: "\<And>ts is. length ts \<le> length (add_ingredient_tags ts is)"
  proof -
    fix ts :: "string list" and "is" :: "string list"
    show "length ts \<le> length (add_ingredient_tags ts is)"
    proof (induction "is" arbitrary: ts)
      case Nil
      then show ?case by simp
    next
      case (Cons i "is")
      have "length ts \<le> length (add_ingredient_tags ts is)"
        and "length (ts @ [x]) \<le> length (add_ingredient_tags (ts @ [x]) is)" for x
        by (rule Cons.IH)+
      then show ?case
        by (auto split: sum.splits simp: le_trans[of "length ts" "Suc (length ts)"])
    qed
  qed
  have nine: "5 \<le> length (initial_tags r)"
    using len[of "[dish_name r, dish_type r, taste_category r, ''recipe'', ''cooking'',
                   ''food'', ''homemade'', ''chef'', ''delicious'']" "ingredients r"]
    by (simp add: initial_tags_def)
  have within: "total_tags_length (trim_tags tags) \<le> 490"
    if f: "total_tags_length (take 5 tags) \<le> 490"
  proof (cases "total_tags_length (trim_tags tags) \<le> 490")
    case True
    then show ?thesis .
  next
    case False
    then have "length (trim_tags tags) \<le> 5" using trim_bound[of tags] by blast
    then have "trim_tags tags = take (min k 5) tags"
      using k by (metis min.absorb1 take_take length_take min.commute take_all_iff)
    then have "total_tags_length (trim_tags tags) \<le> total_tags_length (take 5 tags)"
      using total_take_mono[of "min k 5" 5 tags] by simp
    then show ?thesis using f by simp
  qed
  show ?thesis
    using k trim_len[of tags] trim_len[OF nine] trim_bound[of tags] within by blast
qed

theorem C4_witness:
  "5 \<le> length [''a'', ''b'', ''c'', ''d'', ''e'', replicate 500 (CHR ''x'')] \<and>
   total_tags_length (take 5 [''a'', ''b'', ''c'', ''d'', ''e'', replicate 500 (CHR ''x'')]) \<le> 490 \<and>
   490 < total_tags_length [''a'', ''b'', ''c'', ''d'', ''e'', replicate 500 (CHR ''x'')] \<and>
   5 \<le> length (trim_tags [''a'', ''b'', ''c'', ''d'', ''e'', replicate 500 (CHR ''x'')]) \<and>
   total_tags_length (trim_tags [''a'', ''b'', ''c'', ''d'', ''e'', replicate 500 (CHR ''x'')])
     \<le> 490"
proof -
  let ?T = "[''a'', ''b'', ''c'', ''d'', ''e'', replicate 500 (CHR ''x'')]"
  have h1: "5 \<le> length ?T" by simp
  have h2: "total_tags_length (take 5 ?T) \<le> 490" by (simp add: total_tags_length_def)
  have h3: "490 < total_tags_length ?T" by (simp add: total_tags_length_def)
  show ?thesis
    using C4_trim_tags[of ?T recipe7] h1 h2 h3 by blast
qed

theorem C4_counterexample:
  "490 < total_tags_length (initial_tags long_name_recipe) \<and>
   \<not> total_tags_length (trim_tags (initial_tags long_name_recipe)) \<le> 490"
  unfolding long_name_recipe_def recipe7_def by code_simp

text \<open>
  C9.  A chunk completion that reports the progress last recorded increments the stall
  counter; when the counter was five or more already, so that it now exceeds five, the
  handler of a timeout runs (the retry counter is incremented, the delay is slept and
  the timeout is raised again at the last retry).  Counted from a counter of zero, five
  such completions in a row leave the loop polling without any retry, and the sixth
  enters the handler.  A completion that reports another progress sets the counter to
  zero and records the progress.
\<close>

theorem C9_stall_detection:
  "upload_iter m (Chunk (Some (last_progress ls)) resp) ls =
     (if 5 \<le> stalled_count ls
      then retry_handler UploadTimeout SocketTimeout m
             (ls\<lparr>response := resp, ul_trace := ul_trace ls @ [YouTubeNextChunk],
                 stalled_count := stalled_count ls + 1\<rparr>)
      else (None, ls\<lparr>response := resp, ul_trace := ul_trace ls @ [YouTubeNextChunk],
                      stalled_count := stalled_count ls + 1\<rparr>)) \<and>
   (p \<noteq> last_progress ls \<longrightarrow>
      upload_iter m (Chunk (Some p) resp) ls =
        (None, ls\<lparr>response := resp, ul_trace := ul_trace ls @ [YouTubeNextChunk],
                  stalled_count := 0, last_progress := p\<rparr>)) \<and>
   (response ls = None \<and> retry_count ls < m \<and> stalled_count ls = 0 \<longrightarrow>
      upload_loop m (replicate 5 (Chunk (Some (last_progress ls)) None) @ rest) ls =
        upload_loop m rest
          (ls\<lparr>stalled_count := 5, ul_trace := ul_trace ls @ replicate 5 YouTubeNextChunk\<rparr>) \<and>
      upload_loop m (replicate 6 (Chunk (Some (last_progress ls)) None) @ rest) ls =
        (if m \<le> retry_count ls + 1
         then (Exc SocketTimeout,
               ls\<lparr>stalled_count := 6, retry_count := retry_count ls + 1,
                   ul_trace := ul_trace ls @ replicate 6 YouTubeNextChunk
                               @ [Sleep UploadTimeout (upload_delay (retry_count ls + 1))]\<rparr>)
         else upload_loop m rest
               (ls\<lparr>stalled_count := 6, retry_count := retry_count ls + 1,
                   ul_trace := ul_trace ls @ replicate 6 YouTubeNextChunk
                               @ [Sleep UploadTimeout (upload_delay (retry_count ls + 1))]\<rparr>)))"
proof -
  have five: "upload_loop m (replicate 5 (Chunk (Some (last_progress ls)) None) @ rest) ls =
        upload_loop m rest
          (ls\<lparr>stalled_count := 5, ul_trace := ul_trace ls @ replicate 5 YouTubeNextChunk\<rparr>)"
    if "response ls = None" "retry_count ls < m" "stalled_count ls = 0"
    using stall_steps[of ls m 5 rest] that by simp
  show ?thesis
    using upload_iter_same[of m ls resp] upload_iter_changed[of p ls m resp] five
      stall_sixth[of ls m rest]
    by blast
qed

theorem C9_witness:
  "upload_loop 15 (replicate 6 (Chunk (Some 0) None) @ [Chunk None (Some ''dQw4'')]) ul_init =
     (Ret (),
      \<lparr>response = Some ''dQw4'', retry_count = 1, last_progress = 0, stalled_count = 6,
         ul_trace = replicate 6 YouTubeNextChunk @ [Sleep UploadTimeout 2, YouTubeNextChunk]\<rparr>)"
proof -
  have h: "response ul_init = None \<and> retry_count ul_init < 15 \<and> stalled_count ul_init = 0"
    by (simp add: ul_init_def)
  have l: "last_progress ul_init = 0" by (simp add: ul_init_def)
  have "upload_loop 15 (replicate 6 (Chunk (Some (last_progress ul_init)) None)
                          @ [Chunk None (Some ''dQw4'')]) ul_init =
        upload_loop 15 [Chunk None (Some ''dQw4'')]
          (ul_init\<lparr>stalled_count := 6, retry_count := retry_count ul_init + 1,
                   ul_trace := ul_trace ul_init @ replicate 6 YouTubeNextChunk
                     @ [Sleep UploadTimeout (upload_delay (retry_count ul_init + 1))]\<rparr>)"
    using C9_stall_detection[of 15 ul_init None 1 "[Chunk None (Some ''dQw4'')]"] h
    by (simp add: ul_init_def)
  then show ?thesis
    by (simp add: l ul_init_def upload_delay_def Let_def)
qed

theorem C9_counterexample:
  "upload_loop 15 (Chunk (Some 10) None # replicate 5 (Chunk (Some 10) None)) ul_init =
     (Pending,
      \<lparr>response = None, retry_count = 0, last_progress = 10, stalled_count = 5,
         ul_trace = replicate 6 YouTubeNextChunk\<rparr>)"
  by (simp add: ul_init_def Let_def numeral_eq_Suc)

subsection \<open>The claims about the download stage\<close>

lemma download_attempt_ret:
  "download_attempt k fid p a st = (Ret q, st') \<Longrightarrow> q = p"
  by (auto simp: download_attempt_def split: dl_attempt.splits prod.splits result.splits)

lemma download_loop_ret:
  "download_loop m k fid p script st = (Ret q, st') \<Longrightarrow> q = p"
proof (induction script arbitrary: k st)
  case Nil
  then show ?case by (simp split: if_splits)
next
  case (Cons a as)
  show ?case
  proof (cases "download_attempt k fid p a st")
    case (Pair res st1)
    show ?thesis
    proof (cases res)
      case (Ret x)
      then show ?thesis using Cons.prems Pair download_attempt_ret[of k fid p a st x st1]
        by (simp split: if_splits)
    next
      case (Exc e)
      then show ?thesis using Cons.prems Pair Cons.IH
        by (auto simp: Let_def split: if_splits)
    next
      case Pending
      then show ?thesis using Cons.prems Pair by (simp split: if_splits)
    qed
  qed
qed

lemma download_video_ret:
  "download_video r m t script st = (Ret q, st') \<Longrightarrow> q = original_path (recipe_id r)"
  by (auto simp: download_video_def Let_def split: if_splits option.splits
        dest: download_loop_ret)

text \<open>
  C5.  When the original file of the identifier is on disk with more than 1 MiB,
  \<^verbatim>\<open>download_video\<close> returns its path whatever the remote service would answer, and
  leaves the trace and the files as they were: no request is made.  So a second call
  after a call that returned such a file makes no request and returns the same path.
\<close>

theorem C5_download_reuses_artifact:
  "(files st (original_path (recipe_id r)) = Some n \<and> 1024 * 1024 < n \<longrightarrow>
      fst (download_video r m t script st) = Ret (original_path (recipe_id r)) \<and>
      trace (snd (download_video r m t script st)) = trace st \<and>
      files (snd (download_video r m t script st)) = files st) \<and>
   (download_video r m1 t1 script1 st = (Ret p, st1) \<and> files st1 p = Some n \<and>
    1024 * 1024 < n \<longrightarrow>
      fst (download_video r m2 t2 script2 st1) = Ret p \<and>
      trace (snd (download_video r m2 t2 script2 st1)) = trace st1 \<and>
      files (snd (download_video r m2 t2 script2 st1)) = files st1)"
proof -
  have first: "fst (download_video r m t script st) = Ret (original_path (recipe_id r)) \<and>
      trace (snd (download_video r m t script st)) = trace st \<and>
      files (snd (download_video r m t script st)) = files st"
    if "files st (original_path (recipe_id r)) = Some n" "1024 * 1024 < n"
    for st m t script
    using that
    by (simp add: download_video_def Let_def exists_larger_def save_resume_data_def)
  have second: "fst (download_video r m2 t2 script2 st1) = Ret p \<and>
      trace (snd (download_video r m2 t2 script2 st1)) = trace st1 \<and>
      files (snd (download_video r m2 t2 script2 st1)) = files st1"
    if a: "download_video r m1 t1 script1 st = (Ret p, st1)" and b: "files st1 p = Some n"
      and c: "1024 * 1024 < n"
  proof -
    have "p = original_path (recipe_id r)" using a by (rule download_video_ret)
    then show ?thesis using first[of st1 m2 t2 script2] b c by simp
  qed
  show ?thesis using first[of st m t script] second by blast
qed

theorem C5_witness:
  "fst (download_video recipe7 5 (now quiet_world) (drive quiet_world) fresh_uploader)
     = Ret (original_path ''7'') \<and>
   files (snd (download_video recipe7 5 (now quiet_world) (drive quiet_world) fresh_uploader))
     (original_path ''7'') = Some 20971520 \<and>
   fst (download_video recipe7 5 ''later'' []
          (snd (download_video recipe7 5 (now quiet_world) (drive quiet_world) fresh_uploader)))
     = Ret (original_path ''7'') \<and>
   trace (snd (download_video recipe7 5 ''later'' []
          (snd (download_video recipe7 5 (now quiet_world) (drive quiet_world) fresh_uploader))))
     = [DriveGetMedia ''abc123'', DriveNextChunk, DriveNextChunk,
        FileWrite (original_path ''7'') 20971520]"
proof -
  let ?run = "download_video recipe7 5 (now quiet_world) (drive quiet_world) fresh_uploader"
  have fid: "extract_file_id ''https://drive.google.com/file/d/abc123/view'' = Some ''abc123''"
    by (simp add: extract_file_id_def)
  have r: "fst ?run = Ret (original_path ''7'')"
    and f: "files (snd ?run) (original_path ''7'') = Some 20971520"
    and t: "trace (snd ?run) = [DriveGetMedia ''abc123'', DriveNextChunk, DriveNextChunk,
        FileWrite (original_path ''7'') 20971520]"
    by (simp_all add: download_video_def Let_def fid exists_larger_def save_resume_data_def
          fresh_uploader_def quiet_world_def download_attempt_def emit_def recipe7_def)
  have e: "?run = (Ret (original_path ''7''), snd ?run)" using r by (metis prod.collapse)
  have n: "(1024::nat) * 1024 < 20971520" by simp
  have "fst (download_video recipe7 5 ''later'' [] (snd ?run)) = Ret (original_path ''7'') \<and>
      trace (snd (download_video recipe7 5 ''later'' [] (snd ?run))) = trace (snd ?run)"
    using C5_download_reuses_artifact[where r = recipe7 and st = fresh_uploader
        and ?m1.0 = 5 and ?t1.0 = "now quiet_world" and ?script1.0 = "drive quiet_world"
        and p = "original_path ''7''" and ?st1.0 = "snd ?run" and n = 20971520
        and ?m2.0 = 5 and ?t2.0 = "''later''" and ?script2.0 = "[]"] e f n
    by blast
  then show ?thesis using r f t by simp
qed

subsection \<open>The claims about processing one recipe\<close>

lemma upload_ret_url:
  "upload_to_youtube video_path r m script st = (Ret url, st') \<Longrightarrow> url \<noteq> []"
  by (auto simp: upload_to_youtube_def Let_def youtube_url_def
        split: option.splits result.splits)

lemma select_recipe_world:
  "select_recipe requested (w\<lparr>drive := dr, tool := ff\<rparr>) st = select_recipe requested w st"
  by (auto simp: select_recipe_def split: option.splits)

lemma requested_used:
  assumes "rid \<in> used_recipes st1"
  shows "(case get_recipe_by_id rid st1 of
            None \<Rightarrow> (Inr None, st1)
          | Some r \<Rightarrow>
              if recipe_id r \<in> used_recipes st1 then (Inr None, st1)
              else (Inr (Some r), st1)) = (Inr None, st1)"
proof (cases "get_recipe_by_id rid st1")
  case None
  then show ?thesis by simp
next
  case (Some r)
  then have "recipe_id r = rid" by (auto simp: get_recipe_by_id_def find_Some_iff)
  then show ?thesis using Some assms by simp
qed

lemma select_requested_used:
  assumes "rid \<noteq> []" and "rid \<in> used_recipes st"
  shows "select_recipe (Some rid) w st =
           (if recipes st = [] then
              (case catalog w of
                 None \<Rightarrow> (Inl Exception, st)
               | Some rs \<Rightarrow> (Inr None, st\<lparr>recipes := rs\<rparr>))
            else (Inr None, st))"
proof (cases "recipes st = []")
  case True
  show ?thesis
  proof (cases "catalog w")
    case None
    then show ?thesis using True by (simp add: select_recipe_def)
  next
    case (Some rs)
    have "rid \<in> used_recipes (st\<lparr>recipes := rs\<rparr>)" using assms(2) by simp
    then show ?thesis
      using True Some assms(1) requested_used[of rid "st\<lparr>recipes := rs\<rparr>"]
      by (simp add: select_recipe_def)
  qed
next
  case False
  then show ?thesis
    using assms requested_used[of rid st] by (simp add: select_recipe_def)
qed

text \<open>
  C10.  For a requested identifier (a string that is not empty, which is what
  \<^verbatim>\<open>if recipe_id:\<close> tests) that is in the ledger, \<^verbatim>\<open>process_single_recipe\<close> returns
  \<^verbatim>\<open>None\<close>, and the uploader differs from the one before at most in the catalogue it
  has loaded: the ledger, the resume data, their two files, the files on disk and the
  trace (no download, no compression, no upload) are as they were.
\<close>

theorem C10_already_uploaded_is_skipped:
  assumes "rid \<noteq> []" and "rid \<in> used_recipes st"
  shows "fst (process_single_recipe (Some rid) w st) = Ret None \<and>
         (\<exists>rs. snd (process_single_recipe (Some rid) w st) = st\<lparr>recipes := rs\<rparr>) \<and>
         used_recipes (snd (process_single_recipe (Some rid) w st)) = used_recipes st \<and>
         resume_data (snd (process_single_recipe (Some rid) w st)) = resume_data st \<and>
         used_recipes_file (snd (process_single_recipe (Some rid) w st)) = used_recipes_file st \<and>
         resume_data_file (snd (process_single_recipe (Some rid) w st)) = resume_data_file st \<and>
         files (snd (process_single_recipe (Some rid) w st)) = files st \<and>
         trace (snd (process_single_recipe (Some rid) w st)) = trace st"
proof -
  define rs where "rs = (if recipes st = [] then
                           (case catalog w of None \<Rightarrow> recipes st | Some rs' \<Rightarrow> rs')
                         else recipes st)"
  have "process_single_recipe (Some rid) w st = (Ret None, st\<lparr>recipes := rs\<rparr>)"
    unfolding process_single_recipe_def select_requested_used[OF assms] rs_def
    by (simp split: option.splits)
  then show ?thesis by auto
qed

theorem C10_witness:
  "process_single_recipe (Some ''7'') quiet_world (stopped_uploader\<lparr>used_recipes := {''7''}\<rparr>)
     = (Ret None, stopped_uploader\<lparr>used_recipes := {''7''}\<rparr>)"
proof -
  let ?st = "stopped_uploader\<lparr>used_recipes := {''7''}\<rparr>"
  have h1: "''7'' \<noteq> []" by simp
  have h2: "''7'' \<in> used_recipes ?st" by simp
  from C10_already_uploaded_is_skipped[OF h1 h2, of quiet_world]
  obtain rs where a: "fst (process_single_recipe (Some ''7'') quiet_world ?st) = Ret None"
    and b: "snd (process_single_recipe (Some ''7'') quiet_world ?st) = ?st\<lparr>recipes := rs\<rparr>"
    by blast
  have "recipes (snd (process_single_recipe (Some ''7'') quiet_world ?st)) = recipes ?st"
    by (simp add: process_single_recipe_def select_recipe_def stopped_uploader_def
          fresh_uploader_def get_recipe_by_id_def recipe7_def)
  then have "?st\<lparr>recipes := rs\<rparr> = ?st" using b by simp
  then show ?thesis using a b by (metis prod.collapse)
qed

text \<open>
  C6.  When the selected recipe has a resume record with the status \<^verbatim>\<open>uploading\<close> and
  a path that is not empty and names a file on disk, \<^verbatim>\<open>process_single_recipe\<close> is the
  upload of that path, started on the uploader as the selection left it, followed by
  the clean up after a success.  Neither the download nor the compression runs: what the
  remote source and the encoding tool would answer does not matter.
\<close>

theorem C6_resume_skips_to_upload:
  assumes "select_recipe requested w st = (Inr (Some r), st1)"
    and "map_of (resume_data st1) (recipe_id r) = Some d"
    and "map_of d ''status'' = Some ''uploading''"
    and "map_of d ''video_path'' = Some video_path"
    and "video_path \<noteq> []"
    and "files st1 video_path = Some n"
  shows "process_single_recipe requested w st =
           (case upload_to_youtube video_path r 15 (youtube w) st1 of
              (Ret url, st2) \<Rightarrow> (Ret (Some url), cleanup (recipe_id r) st2)
            | (Exc e, st2) \<Rightarrow> (Ret None, st2)
            | (Pending, st2) \<Rightarrow> (Pending, st2)) \<and>
         process_single_recipe requested (w\<lparr>drive := dr, tool := ff\<rparr>) st =
           process_single_recipe requested w st"
proof -
  have rv: "resume_video_path (recipe_id r) st1 = Some video_path"
    using assms(2-6) by (simp add: resume_video_path_def)
  have pr: "process_recipe r w' st1 = upload_and_cleanup video_path r w' st1" for w'
    using rv by (simp add: process_recipe_def)
  have uc: "upload_and_cleanup video_path r w st1 =
           (case upload_to_youtube video_path r 15 (youtube w) st1 of
              (Ret url, st2) \<Rightarrow> (Ret url, cleanup (recipe_id r) st2)
            | (Exc e, st2) \<Rightarrow> (Exc e, st2)
            | (Pending, st2) \<Rightarrow> (Pending, st2))"
    by (auto simp: upload_and_cleanup_def split: prod.splits result.splits
          dest: upload_ret_url)
  have one: "process_single_recipe requested w st =
           (case upload_to_youtube video_path r 15 (youtube w) st1 of
              (Ret url, st2) \<Rightarrow> (Ret (Some url), cleanup (recipe_id r) st2)
            | (Exc e, st2) \<Rightarrow> (Ret None, st2)
            | (Pending, st2) \<Rightarrow> (Pending, st2))"
    using assms(1) by (simp add: process_single_recipe_def pr uc split: prod.splits result.splits)
  have two: "process_single_recipe requested (w\<lparr>drive := dr, tool := ff\<rparr>) st =
           process_single_recipe requested w st"
    using assms(1)
    by (simp add: process_single_recipe_def select_recipe_world pr upload_and_cleanup_def)
  show ?thesis using one two by blast
qed

theorem C6_witness:
  "fst (process_single_recipe (Some ''7'') quiet_world stopped_uploader)
     = Ret (Some (youtube_url ''dQw4'')) \<and>
   trace (snd (process_single_recipe (Some ''7'') quiet_world stopped_uploader))
     = [YouTubeInsert (original_path ''7'') (trim_tags (initial_tags recipe7)),
        YouTubeNextChunk, YouTubeNextChunk, FileRemove (original_path ''7'')]"
proof -
  let ?up = "upload_to_youtube (original_path ''7'') recipe7 15 (youtube quiet_world)
               stopped_uploader"
  have h1: "select_recipe (Some ''7'') quiet_world stopped_uploader
              = (Inr (Some recipe7), stopped_uploader)"
    by (simp add: select_recipe_def stopped_uploader_def fresh_uploader_def
          get_recipe_by_id_def recipe7_def)
  have h2: "map_of (resume_data stopped_uploader) (recipe_id recipe7)
              = Some (uploading_record (original_path ''7''))"
    by (simp add: stopped_uploader_def fresh_uploader_def recipe7_def)
  have h3: "map_of (uploading_record (original_path ''7'')) ''status'' = Some ''uploading''"
    and h4: "map_of (uploading_record (original_path ''7'')) ''video_path''
              = Some (original_path ''7'')"
    by (simp_all add: uploading_record_def)
  have h5: "original_path ''7'' \<noteq> []"
    by (simp add: original_path_def path_join_def temp_dir_def)
  have h6: "files stopped_uploader (original_path ''7'') = Some 20971520"
    by (simp add: stopped_uploader_def fresh_uploader_def)
  have l: "upload_loop 15 (youtube quiet_world) ul_init =
             (Ret (), \<lparr>response = Some ''dQw4'', retry_count = 0, last_progress = 50,
                       stalled_count = 0, ul_trace = [YouTubeNextChunk, YouTubeNextChunk]\<rparr>)"
    by (simp add: quiet_world_def ul_init_def Let_def)
  have ne: "compressed_path ''7'' \<noteq> original_path ''7''"
    by (simp add: original_path_def compressed_path_def path_join_def temp_dir_def)
  have u1: "fst ?up = Ret (youtube_url ''dQw4'')"
    and u2: "trace (snd ?up) = [YouTubeInsert (original_path ''7'')
                                 (trim_tags (initial_tags recipe7)),
                               YouTubeNextChunk, YouTubeNextChunk]"
    and u3: "files (snd ?up) = [original_path ''7'' \<mapsto> 20971520]"
    by (simp_all add: upload_to_youtube_def stopped_uploader_def fresh_uploader_def
          h2[unfolded stopped_uploader_def fresh_uploader_def, simplified] l
          Let_def save_resume_data_def emit_def mark_used_def)
  have "process_single_recipe (Some ''7'') quiet_world stopped_uploader
          = (Ret (Some (youtube_url ''dQw4'')), cleanup (recipe_id recipe7) (snd ?up))"
    using C6_resume_skips_to_upload[OF h1 h2 h3 h4 h5 h6] u1
    by (simp add: case_prod_beta)
  moreover have "trace (cleanup (recipe_id recipe7) (snd ?up)) =
      [YouTubeInsert (original_path ''7'') (trim_tags (initial_tags recipe7)),
        YouTubeNextChunk, YouTubeNextChunk, FileRemove (original_path ''7'')]"
  proof -
    have rid7: "recipe_id recipe7 = ''7''" by (simp add: recipe7_def)
    show ?thesis
      using ne by (simp add: cleanup_def remove_if_exists_def u2 u3 emit_def rid7)
  qed
  ultimately show ?thesis by simp
qed

end
